theory Spec2Isabelle
  imports Main "HOL-Library.Sublist" "HOL-Library.AList"
begin

section \<open>Exceptions, paths and the file system\<close>

text \<open>
  The analyzer of \<^verbatim>\<open>github_analyze.py\<close> works on the file system and on two
  external programs. Python exceptions are values: a kind, which is what an
  \<^verbatim>\<open>except\<close> clause selects on, and the text that \<^verbatim>\<open>str(e)\<close> returns.
\<close>

datatype exn_kind =
    FileNotFoundError | UnicodeDecodeError | CalledProcessError | ValueError | OSError

datatype exn = Exn (kind: exn_kind) (str_of: string)

text \<open>
  A path is the list of its components below the root of the file system, as
  \<^verbatim>\<open>Path.parts\<close> holds them; \<^verbatim>\<open>Path.name\<close> is the last one.
\<close>

type_synonym name = string
type_synonym path = "name list"

definition name_of :: "path \<Rightarrow> name" where
  "name_of p = (if p = [] then [] else last p)"

definition parent :: "path \<Rightarrow> path" where
  "parent p = butlast p"

fun join_with :: "char \<Rightarrow> string list \<Rightarrow> string" where
  "join_with c [] = []"
| "join_with c [x] = x"
| "join_with c (x # y # ys) = x @ c # join_with c (y # ys)"

text \<open>\<^verbatim>\<open>str\<close> of an absolute path and of a relative one (\<^verbatim>\<open>'.'\<close> when it has no component).\<close>

definition str_path :: "path \<Rightarrow> string" where
  "str_path p = CHR ''/'' # join_with (CHR ''/'') p"

definition str_rel :: "path \<Rightarrow> string" where
  "str_rel p = (if p = [] then ''.'' else join_with (CHR ''/'') p)"

text \<open>
  \<^verbatim>\<open>Path(base) / s\<close> for a string \<open>s\<close> that does not start with a slash (no key
  does, a component of a path holds none): the string is cut at every slash, and empty
  and \<^verbatim>\<open>'.'\<close> components are dropped.
\<close>

fun split_on :: "char \<Rightarrow> string \<Rightarrow> string \<Rightarrow> string list" where
  "split_on c cur [] = [rev cur]"
| "split_on c cur (x # xs) = (if x = c then rev cur # split_on c [] xs else split_on c (x # cur) xs)"

definition split_path :: "string \<Rightarrow> path" where
  "split_path s = filter (\<lambda>n. n \<noteq> [] \<and> n \<noteq> ''.'') (split_on (CHR ''/'') [] s)"

text \<open>A path as a message of the operating system shows it: between single quotes.\<close>

definition quoted :: "path \<Rightarrow> string" where
  "quoted p = CHR 0x27 # str_path p @ [CHR 0x27]"

definition relative_to :: "path \<Rightarrow> path \<Rightarrow> exn + path" where
  "relative_to p base =
     (if prefix base p then Inr (drop (length base) p)
      else Inl (Exn ValueError (quoted p @ '' is not in the subpath of '' @ quoted base)))"

text \<open>A component of a path is not empty, is not \<^verbatim>\<open>'.'\<close> and holds no slash.\<close>

definition wf_name :: "name \<Rightarrow> bool" where
  "wf_name n = (n \<noteq> [] \<and> n \<noteq> ''.'' \<and> CHR ''/'' \<notin> set n)"

text \<open>
  A file system entry: a regular file (with what reading it as UTF-8 text gives: the
  text, or the exception that \<^verbatim>\<open>open\<close>/\<^verbatim>\<open>read\<close> raises), a directory (with the
  exception that listing it raises, if any, and its entries in enumeration order), or
  something that is neither (a socket, a dangling link).
\<close>

datatype node =
    File "exn + string"
  | Dir "exn option" "(name \<times> node) list"
  | Special

text \<open>
  \<^verbatim>\<open>Path.is_file()\<close> and \<^verbatim>\<open>Path.is_dir()\<close>. Like \<^verbatim>\<open>Path.exists()\<close> below they are
  taken to answer: every directory of this file system may be searched.
\<close>

fun is_file :: "node \<Rightarrow> bool" where
  "is_file (File c) = True"
| "is_file n = False"

fun is_dir :: "node \<Rightarrow> bool" where
  "is_dir (Dir e cs) = True"
| "is_dir n = False"

fun lookup :: "node \<Rightarrow> path \<Rightarrow> node option" where
  "lookup n [] = Some n"
| "lookup n (x # xs) =
     (case n of
        Dir e cs \<Rightarrow> (case map_of cs x of None \<Rightarrow> None | Some c \<Rightarrow> lookup c xs)
      | _ \<Rightarrow> None)"

definition exists_path :: "node \<Rightarrow> path \<Rightarrow> bool" where
  "exists_path fs p = (lookup fs p \<noteq> None)"

text \<open>Storing an entry at a path whose parent directory exists; nothing happens otherwise.\<close>

fun put :: "path \<Rightarrow> node \<Rightarrow> node \<Rightarrow> node" where
  "put [] new n = new"
| "put [x] new (Dir e cs) = Dir e (AList.update x new cs)"
| "put (x # y # ys) new (Dir e cs) = Dir e (AList.map_entry x (put (y # ys) new) cs)"
| "put (x # xs) new n = n"

text \<open>Removing the entry at a path, with all that is below it. The root stays.\<close>

fun remove :: "path \<Rightarrow> node \<Rightarrow> node" where
  "remove [] n = n"
| "remove [x] (Dir e cs) = Dir e (AList.delete x cs)"
| "remove (x # y # ys) (Dir e cs) = Dir e (AList.map_entry x (remove (y # ys)) cs)"
| "remove (x # xs) n = n"

text \<open>
  \<^verbatim>\<open>Path.mkdir(parents=True, exist_ok=True)\<close>: missing directories are created along
  the path; an entry on the way that is not a directory makes it raise.
\<close>

fun mkdir_parents :: "path \<Rightarrow> node \<Rightarrow> exn + node" where
  "mkdir_parents [] n =
     (if is_dir n then Inr n else Inl (Exn OSError ''[Errno 17] File exists''))"
| "mkdir_parents (x # xs) n =
     (case n of
        Dir e cs \<Rightarrow>
          (case mkdir_parents xs (case map_of cs x of None \<Rightarrow> Dir None [] | Some c \<Rightarrow> c) of
             Inl ex \<Rightarrow> Inl ex
           | Inr c' \<Rightarrow> Inr (Dir e (AList.update x c' cs)))
      | _ \<Rightarrow> Inl (Exn OSError ''[Errno 20] Not a directory''))"

text \<open>\<^verbatim>\<open>open(p, 'r', encoding='utf-8').read()\<close>.\<close>

definition read_text :: "node \<Rightarrow> path \<Rightarrow> exn + string" where
  "read_text fs p =
     (case lookup fs p of
        None \<Rightarrow> Inl (Exn FileNotFoundError
                  (''[Errno 2] No such file or directory: '' @ quoted p))
      | Some (File c) \<Rightarrow> c
      | Some (Dir e cs) \<Rightarrow> Inl (Exn OSError (''[Errno 21] Is a directory: '' @ quoted p))
      | Some Special \<Rightarrow> Inl (Exn OSError (''[Errno 6] No such device or address: '' @ quoted p)))"

section \<open>The tree serializer: \<^verbatim>\<open>generate_file_tree\<close>\<close>

text \<open>
  The result is a nested dictionary: a file name maps to the string of its path, a
  directory name to the dictionary of that directory. A dictionary is an association
  list with unique keys; \<^verbatim>\<open>tree[k] = v\<close> is \<open>AList.update\<close>.
\<close>

datatype ftree = Leaf string | Sub "(name \<times> ftree) list"

text \<open>
  \<^verbatim>\<open>_build_tree\<close>. The \<^verbatim>\<open>try\<close> encloses the whole loop: when \<^verbatim>\<open>path.iterdir()\<close>
  raises (the directory cannot be listed, or the path is no directory) the handler
  logs, and the dictionary built so far, which is empty, is returned. \<open>build_items\<close>
  is the loop body over the entries that are left, with the dictionary so far.
\<close>

fun build_tree :: "path \<Rightarrow> node \<Rightarrow> (name \<times> ftree) list"
  and build_items :: "path \<Rightarrow> (name \<times> node) list \<Rightarrow> (name \<times> ftree) list \<Rightarrow> (name \<times> ftree) list"
where
  "build_tree p (Dir None cs) = build_items p cs []"
| "build_tree p (Dir (Some e) cs) = []"
| "build_tree p (File c) = []"
| "build_tree p Special = []"
| "build_items p [] tree = tree"
| "build_items p ((nm, item) # rest) tree =
     (if prefix ''.'' nm then build_items p rest tree
      else if is_file item then
        build_items p rest (AList.update nm (Leaf (str_path (p @ [nm]))) tree)
      else if is_dir item then
        (let subtree = build_tree (p @ [nm]) item
         in if subtree \<noteq> [] then build_items p rest (AList.update nm (Sub subtree) tree)
            else build_items p rest tree)
      else build_items p rest tree)"

definition generate_file_tree :: "node \<Rightarrow> path \<Rightarrow> (name \<times> ftree) list" where
  "generate_file_tree fs p = (case lookup fs p of None \<Rightarrow> [] | Some n \<Rightarrow> build_tree p n)"

text \<open>A value of the tree is sound when no dictionary in it, at any depth, is empty.\<close>

fun no_empty :: "ftree \<Rightarrow> bool"
  and no_empty_values :: "(name \<times> ftree) list \<Rightarrow> bool"
where
  "no_empty (Leaf s) = True"
| "no_empty (Sub m) = (m \<noteq> [] \<and> no_empty_values m)"
| "no_empty_values [] = True"
| "no_empty_values ((k, v) # m) = (no_empty v \<and> no_empty_values m)"

section \<open>The environment\<close>

text \<open>
  What the analyzer cannot decide by itself is a parameter: the two external programs,
  the errors that the library's recursive glob swallows, and the failures of deleting.
  \<^item> \<open>git_clone url dest fs\<close>: the exception \<^verbatim>\<open>subprocess.run\<close> raises, if any
    (\<open>CalledProcessError\<close> on a non-zero exit), and the file system afterwards;
  \<^item> \<open>code2prompt fs file out\<close>: the run of the rendering tool on a file, see
    \<open>tool_result\<close>;
  \<^item> \<open>unlink_error fs p\<close>: the exception that deleting the file \<open>p\<close> raises, if any;
  \<^item> \<open>rmtree_leftover fs p\<close>: what \<^verbatim>\<open>shutil.rmtree(p, ignore_errors=True)\<close> leaves
    at \<open>p\<close> when a removal fails; \<open>None\<close> when it removes everything.
\<close>

datatype tool_result =
    Raises exn
  | Completed string "(exn + string) option"
    \<comment> \<open>exit status 0: the captured standard output, and what the tool stored in
        its output file, if it stored one\<close>

record env =
  rglob_suppresses :: "exn \<Rightarrow> bool"
  git_clone :: "string \<Rightarrow> path \<Rightarrow> node \<Rightarrow> exn option \<times> node"
  code2prompt :: "node \<Rightarrow> path \<Rightarrow> path \<Rightarrow> tool_result"
  unlink_error :: "node \<Rightarrow> path \<Rightarrow> exn option"
  rmtree_leftover :: "node \<Rightarrow> path \<Rightarrow> node option"

record analyzer =
  repo_url :: string
  temp_dir :: path

section \<open>The file classifier: \<^verbatim>\<open>find_files\<close>\<close>

definition doc_patterns :: "string list" where
  "doc_patterns = [''.md'', ''.rst'', ''.txt'', ''LICENSE'', ''CONTRIBUTING'', ''CODE_OF_CONDUCT'']"

definition code_patterns :: "string list" where
  "code_patterns =
     [''.py'', ''.js'', ''.java'', ''.cpp'', ''.go'', ''.rs'', ''.swift'', ''.kt'', ''.cs'', ''.toml'']"

definition binary_patterns :: "string list" where
  "binary_patterns = [''.pdf'', ''.png'', ''.jpg'', ''.jpeg'', ''.gif'', ''.zip'', ''.tar'', ''.gz'']"

text \<open>The three tests of the loop body; \<^verbatim>\<open>s.endswith(ext)\<close> is \<open>suffix ext s\<close>.\<close>

definition is_binary :: "name \<Rightarrow> bool" where
  "is_binary n = list_ex (\<lambda>ext. suffix ext n) binary_patterns"

definition is_code :: "name \<Rightarrow> bool" where
  "is_code n = list_ex (\<lambda>ext. suffix ext n) code_patterns"

definition is_doc :: "name \<Rightarrow> bool" where
  "is_doc n = list_ex (\<lambda>ext. list_ex (\<lambda>nm. suffix ext n \<or> n = nm) doc_patterns) doc_patterns"

text \<open>
  \<^verbatim>\<open>path.rglob('*')\<close>: every entry below a directory, with its path relative to the
  directory where the search started. The entries of a directory come first, in the
  order of its listing; then, for each of its entries that is a directory, what is
  below that one. A directory that cannot be listed ends the enumeration with its
  exception unless the library swallows it; then the directory has no entries.
  (The file system of this theory has no links; the library lists a link to a
  directory and does not go below it.)
\<close>

fun rglob :: "(exn \<Rightarrow> bool) \<Rightarrow> path \<Rightarrow> node \<Rightarrow> exn + (path \<times> node) list"
  and rglob_items :: "(exn \<Rightarrow> bool) \<Rightarrow> path \<Rightarrow> (name \<times> node) list \<Rightarrow> exn + (path \<times> node) list"
where
  "rglob sw rel (Dir None cs) =
     (case rglob_items sw rel cs of
        Inl e \<Rightarrow> Inl e
      | Inr below \<Rightarrow> Inr (map (\<lambda>(nm, item). (rel @ [nm], item)) cs @ below))"
| "rglob sw rel (Dir (Some e) cs) = (if sw e then Inr [] else Inl e)"
| "rglob sw rel (File c) = Inr []"
| "rglob sw rel Special = Inr []"
| "rglob_items sw rel [] = Inr []"
| "rglob_items sw rel ((nm, item) # rest) =
     (case rglob sw (rel @ [nm]) item of
        Inl e \<Rightarrow> Inl e
      | Inr below \<Rightarrow>
          (case rglob_items sw rel rest of
             Inl e \<Rightarrow> Inl e
           | Inr others \<Rightarrow> Inr (below @ others)))"

text \<open>
  The loop over the enumerated entries, with the two lists so far. \<open>rel\<close> is
  \<^verbatim>\<open>file_path.relative_to(path)\<close> and \<open>tmp @ rel\<close> is \<^verbatim>\<open>Path(self.temp_dir) / relative_path\<close>.
\<close>

fun scan :: "path \<Rightarrow> (path \<times> node) list \<Rightarrow> path list \<times> path list \<Rightarrow> path list \<times> path list" where
  "scan tmp [] (code_files, doc_files) = (code_files, doc_files)"
| "scan tmp ((rel, item) # rest) (code_files, doc_files) =
     (if is_file item then
        (if is_binary (name_of rel) then scan tmp rest (code_files, doc_files)
         else if is_code (name_of rel) then scan tmp rest (code_files @ [tmp @ rel], doc_files)
         else if is_doc (name_of rel) then scan tmp rest (code_files, doc_files @ [tmp @ rel])
         else scan tmp rest (code_files, doc_files))
      else scan tmp rest (code_files, doc_files))"

text \<open>When the loop body appends an enumerated entry to the first list, and to the second.\<close>

definition picks_code :: "path \<times> node \<Rightarrow> bool" where
  "picks_code en =
     (is_file (snd en) \<and> \<not> is_binary (name_of (fst en)) \<and> is_code (name_of (fst en)))"

definition picks_doc :: "path \<times> node \<Rightarrow> bool" where
  "picks_doc en =
     (is_file (snd en) \<and> \<not> is_binary (name_of (fst en)) \<and> \<not> is_code (name_of (fst en))
      \<and> is_doc (name_of (fst en)))"

text \<open>\<open>entries fs p\<close> is what the enumeration under \<open>p\<close> yields, or the exception that ends it.\<close>

definition entries :: "env \<Rightarrow> node \<Rightarrow> path \<Rightarrow> exn + (path \<times> node) list" where
  "entries ev fs p = (case lookup fs p of None \<Rightarrow> Inr [] | Some root \<Rightarrow> rglob (rglob_suppresses ev) [] root)"

definition find_files :: "env \<Rightarrow> analyzer \<Rightarrow> node \<Rightarrow> path \<Rightarrow> exn + (path list \<times> path list)" where
  "find_files ev a fs p =
     (case entries ev fs p of
        Inl e \<Rightarrow> Inl e
      | Inr found \<Rightarrow> Inr (scan (temp_dir a) found ([], [])))"

section \<open>The prompt generator: \<^verbatim>\<open>generate_file_prompts\<close>\<close>

text \<open>The key of a file and the transient output file of the rendering tool.\<close>

definition key_of :: "path \<Rightarrow> path \<Rightarrow> string" where
  "key_of tmp file_path =
     (case relative_to file_path tmp of
        Inr relative_key \<Rightarrow> str_rel relative_key
      | Inl e \<Rightarrow> name_of file_path)"

definition output_file :: "path \<Rightarrow> path \<Rightarrow> path" where
  "output_file tmp file_path = tmp @ split_path (key_of tmp file_path @ ''.prompt.txt'')"

text \<open>\<^verbatim>\<open>any(marker in str(e) for marker in ['binary', 'UnicodeDecodeError'])\<close>.\<close>

definition is_binary_error :: "exn \<Rightarrow> bool" where
  "is_binary_error e = list_ex (\<lambda>marker. sublist marker (str_of e)) [''binary'', ''UnicodeDecodeError'']"

text \<open>
  How the body of the outer \<^verbatim>\<open>try\<close> ends for one file: it stored a prompt under the
  key, it left the iteration with \<^verbatim>\<open>continue\<close>, or an exception reached the outer
  handler.
\<close>

datatype outcome = Stored string | Skipped | Raised exn

text \<open>The handler of \<open>FileNotFoundError\<close>: the raw content of the file.\<close>

definition raw_content :: "node \<Rightarrow> path \<Rightarrow> outcome" where
  "raw_content fs file_path =
     (case read_text fs file_path of
        Inr s \<Rightarrow> Stored s
      | Inl e \<Rightarrow> if kind e = UnicodeDecodeError then Skipped else Raised e)"

text \<open>The file system after a run of the tool that exited with status 0.\<close>

definition store_output :: "path \<Rightarrow> (exn + string) option \<Rightarrow> node \<Rightarrow> node" where
  "store_output out stored fs = (case stored of None \<Rightarrow> fs | Some c \<Rightarrow> put out (File c) fs)"

text \<open>
  The body of the outer \<^verbatim>\<open>try\<close>. The handler of \<open>FileNotFoundError\<close> encloses the
  run of the tool and the reading of its output file.
\<close>

definition render :: "env \<Rightarrow> node \<Rightarrow> path \<Rightarrow> path \<Rightarrow> outcome \<times> node" where
  "render ev fs file_path out =
     (case code2prompt ev fs file_path out of
        Raises e \<Rightarrow>
          (if kind e = FileNotFoundError then (raw_content fs file_path, fs) else (Raised e, fs))
      | Completed stdout stored \<Rightarrow>
          (let fs' = store_output out stored fs
           in if exists_path fs' out then
                (case read_text fs' out of
                   Inr s \<Rightarrow> (Stored s, fs')
                 | Inl e \<Rightarrow>
                     if kind e = FileNotFoundError then (raw_content fs' file_path, fs')
                     else (Raised e, fs'))
              else (Stored stdout, fs')))"

text \<open>The outer handler and what it leaves in the dictionary.\<close>

definition record_outcome :: "string \<Rightarrow> outcome \<Rightarrow> (string \<rightharpoonup> string) \<Rightarrow> (string \<rightharpoonup> string)" where
  "record_outcome key oc prompts =
     (case oc of
        Stored s \<Rightarrow> prompts(key \<mapsto> s)
      | Skipped \<Rightarrow> prompts
      | Raised e \<Rightarrow>
          if \<not> is_binary_error e then prompts(key \<mapsto> ''Error processing file: '' @ str_of e)
          else prompts)"

text \<open>What an iteration that ends so leaves under the key of its file, if anything.\<close>

definition entry_of :: "outcome \<Rightarrow> string option" where
  "entry_of oc =
     (case oc of
        Stored s \<Rightarrow> Some s
      | Skipped \<Rightarrow> None
      | Raised e \<Rightarrow>
          if \<not> is_binary_error e then Some (''Error processing file: '' @ str_of e) else None)"

text \<open>
  \<^verbatim>\<open>output_file.unlink()\<close> and the \<^verbatim>\<open>finally\<close> clause around it. The test
  \<^verbatim>\<open>output_file.exists()\<close> is taken to answer, here and in the \<^verbatim>\<open>try\<close>: a path whose
  directory may not be searched, where the test raises instead, is not part of this
  file system.
\<close>

definition unlink :: "env \<Rightarrow> node \<Rightarrow> path \<Rightarrow> exn + node" where
  "unlink ev fs p =
     (case unlink_error ev fs p of
        Some e \<Rightarrow> Inl e
      | None \<Rightarrow>
          (case lookup fs p of
             None \<Rightarrow> Inl (Exn FileNotFoundError (''[Errno 2] No such file or directory: '' @ quoted p))
           | Some (Dir e cs) \<Rightarrow> Inl (Exn OSError (''[Errno 21] Is a directory: '' @ quoted p))
           | Some n \<Rightarrow> Inr (remove p fs)))"

definition cleanup :: "env \<Rightarrow> node \<Rightarrow> path \<Rightarrow> node" where
  "cleanup ev fs out =
     (if exists_path fs out then (case unlink ev fs out of Inl e \<Rightarrow> fs | Inr fs' \<Rightarrow> fs') else fs)"

text \<open>
  One iteration of the loop. The \<^verbatim>\<open>mkdir\<close> of the output file's directory stands
  before the \<^verbatim>\<open>try\<close>: its exception leaves \<^verbatim>\<open>generate_file_prompts\<close>.
\<close>

definition process_file ::
  "env \<Rightarrow> path \<Rightarrow> (string \<rightharpoonup> string) \<times> node \<Rightarrow> path \<Rightarrow> (exn + (string \<rightharpoonup> string)) \<times> node" where
  "process_file ev tmp st file_path =
     (let key = key_of tmp file_path;
          out = output_file tmp file_path
      in case mkdir_parents (parent out) (snd st) of
           Inl e \<Rightarrow> (Inl e, snd st)
         | Inr fs1 \<Rightarrow>
             (let r = render ev fs1 file_path out
              in (Inr (record_outcome key (fst r) (fst st)), cleanup ev (snd r) out)))"

fun prompts_loop ::
  "env \<Rightarrow> path \<Rightarrow> path list \<Rightarrow> (string \<rightharpoonup> string) \<times> node \<Rightarrow> (exn + (string \<rightharpoonup> string)) \<times> node" where
  "prompts_loop ev tmp [] st = (Inr (fst st), snd st)"
| "prompts_loop ev tmp (file_path # rest) st =
     (case process_file ev tmp st file_path of
        (Inl e, fs') \<Rightarrow> (Inl e, fs')
      | (Inr prompts', fs') \<Rightarrow> prompts_loop ev tmp rest (prompts', fs'))"

definition generate_file_prompts ::
  "env \<Rightarrow> analyzer \<Rightarrow> path list \<Rightarrow> node \<Rightarrow> (exn + (string \<rightharpoonup> string)) \<times> node" where
  "generate_file_prompts ev a file_paths fs = prompts_loop ev (temp_dir a) file_paths (Map.empty, fs)"

section \<open>The orchestrator: \<^verbatim>\<open>analyze\<close>\<close>

record analysis =
  filetree :: "(name \<times> ftree) list"
  doc :: "string \<rightharpoonup> string"
  code :: "string \<rightharpoonup> string"

definition clone_repository :: "env \<Rightarrow> analyzer \<Rightarrow> node \<Rightarrow> (exn + path) \<times> node" where
  "clone_repository ev a fs =
     (case git_clone ev (repo_url a) (temp_dir a) fs of
        (Some e, fs') \<Rightarrow> (Inl e, fs')
      | (None, fs') \<Rightarrow> (Inr (temp_dir a), fs'))"

text \<open>The body of the \<^verbatim>\<open>try\<close> of \<^verbatim>\<open>analyze\<close>: the first exception ends it.\<close>

definition analyze_body :: "env \<Rightarrow> analyzer \<Rightarrow> node \<Rightarrow> (exn + analysis) \<times> node" where
  "analyze_body ev a fs =
     (case clone_repository ev a fs of
        (Inl e, fs1) \<Rightarrow> (Inl e, fs1)
      | (Inr repo_path, fs1) \<Rightarrow>
          (case find_files ev a fs1 repo_path of
             Inl e \<Rightarrow> (Inl e, fs1)
           | Inr (code_files, doc_files) \<Rightarrow>
               (case generate_file_prompts ev a code_files fs1 of
                  (Inl e, fs2) \<Rightarrow> (Inl e, fs2)
                | (Inr code_prompts, fs2) \<Rightarrow>
                    (case generate_file_prompts ev a doc_files fs2 of
                       (Inl e, fs3) \<Rightarrow> (Inl e, fs3)
                     | (Inr doc_prompts, fs3) \<Rightarrow>
                         (Inr \<lparr>filetree = generate_file_tree fs3 repo_path,
                               doc = doc_prompts, code = code_prompts\<rparr>, fs3)))))"

text \<open>\<^verbatim>\<open>shutil.rmtree(p, ignore_errors=True)\<close>: it never raises.\<close>

definition rmtree :: "env \<Rightarrow> path \<Rightarrow> node \<Rightarrow> node" where
  "rmtree ev p fs = (case rmtree_leftover ev fs p of None \<Rightarrow> remove p fs | Some n \<Rightarrow> put p n fs)"

text \<open>The \<^verbatim>\<open>finally\<close> clause runs however the body ended, and the outcome of the body stays.\<close>

definition analyze :: "env \<Rightarrow> analyzer \<Rightarrow> node \<Rightarrow> (exn + analysis) \<times> node" where
  "analyze ev a fs =
     (let r = analyze_body ev a fs
      in (fst r,
          if exists_path (snd r) (temp_dir a) then rmtree ev (temp_dir a) (snd r) else snd r))"

section \<open>A small repository\<close>

text \<open>
  The working tree of a repository, a file system with an empty workspace
  \<^verbatim>\<open>/tmp/w\<close>, and environments: in \<open>plain_env\<close> the clone succeeds, the rendering
  tool is not installed and every deletion works; \<open>tool_env\<close> has the tool, which
  stores a prompt in its output file for \<^verbatim>\<open>main.py\<close>, prints it for \<^verbatim>\<open>util.py\<close> and
  exits with status 1 otherwise; in \<open>stuck_env\<close> no deletion works; in \<open>offline_env\<close>
  the clone fails.
\<close>

definition demo_tree :: node where
  "demo_tree =
     Dir None
       [(''src'', Dir None
           [(''main.py'', File (Inr ''print(1)'')),
            (''util.py'', File (Inr ''x = 2'')),
            (''data.py'', File (Inl (Exn UnicodeDecodeError ''invalid start byte''))),
            (''archive.py.gz'', File (Inr ''gz''))]),
        (''README.md'', File (Inr ''# Title'')),
        (''MIT-LICENSE'', File (Inr ''Permission is hereby granted'')),
        (''logo.png'', File (Inl (Exn UnicodeDecodeError ''invalid start byte''))),
        (''dist'', Dir None []),
        (''locked'', Dir (Some (Exn OSError ''[Errno 13] Permission denied'')) [])]"

definition empty_workspace :: node where
  "empty_workspace = Dir None [(''tmp'', Dir None [(''w'', Dir None [])])]"

definition workspace :: path where
  "workspace = [''tmp'', ''w'']"

definition main_py :: path where
  "main_py = [''tmp'', ''w'', ''src'', ''main.py'']"

definition util_py :: path where
  "util_py = [''tmp'', ''w'', ''src'', ''util.py'']"

definition data_py :: path where
  "data_py = [''tmp'', ''w'', ''src'', ''data.py'']"

definition demo_fs :: node where
  "demo_fs = put workspace demo_tree empty_workspace"

definition demo_analyzer :: analyzer where
  "demo_analyzer = \<lparr>repo_url = ''https://github.com/username/repo'', temp_dir = workspace\<rparr>"

text \<open>Two files outside the workspace that have the same name.\<close>

definition outside_fs :: node where
  "outside_fs =
     Dir None
       [(''a'', Dir None [(''x.py'', File (Inr ''first''))]),
        (''b'', Dir None [(''x.py'', File (Inr ''second''))])]"

definition plain_env :: env where
  "plain_env =
     \<lparr>rglob_suppresses = (\<lambda>e. True),
      git_clone = (\<lambda>url dest fs. (None, put dest demo_tree fs)),
      code2prompt = (\<lambda>fs file_path out.
        Raises (Exn FileNotFoundError ''[Errno 2] No such file or directory: code2prompt'')),
      unlink_error = (\<lambda>fs p. None),
      rmtree_leftover = (\<lambda>fs p. None)\<rparr>"

definition demo_tool :: "node \<Rightarrow> path \<Rightarrow> path \<Rightarrow> tool_result" where
  "demo_tool fs file_path out =
     (if name_of file_path = ''main.py'' then Completed [] (Some (Inr ''PROMPT print(1)''))
      else if name_of file_path = ''util.py'' then Completed ''PROMPT x = 2'' None
      else Raises (Exn CalledProcessError ''Command returned non-zero exit status 1.''))"

definition tool_env :: env where
  "tool_env = plain_env\<lparr>code2prompt := demo_tool\<rparr>"

definition stuck_env :: env where
  "stuck_env =
     tool_env\<lparr>unlink_error := (\<lambda>fs p. Some (Exn OSError ''[Errno 13] Permission denied'')),
              rmtree_leftover := (\<lambda>fs p. lookup fs p)\<rparr>"

definition offline_env :: env where
  "offline_env =
     plain_env\<lparr>git_clone := (\<lambda>url dest fs.
        (Some (Exn CalledProcessError ''Command returned non-zero exit status 128.''), fs))\<rparr>"

text \<open>
  Two errors as the library words them: the \<open>CalledProcessError\<close> of
  \<^verbatim>\<open>subprocess.run(['code2prompt', str(file_path), f'--output={output_file}'], check=True)\<close>
  when the tool exits with status 1, whose text shows the command, and the
  \<open>UnicodeDecodeError\<close> of reading a file that starts with the byte \<^verbatim>\<open>0xff\<close>.
\<close>

definition single_quoted :: "string \<Rightarrow> string" where
  "single_quoted s = CHR 0x27 # s @ [CHR 0x27]"

definition called_process_error :: "path \<Rightarrow> path \<Rightarrow> exn" where
  "called_process_error file_path out =
     Exn CalledProcessError
       (''Command ''
        @ single_quoted
            (''['' @ single_quoted ''code2prompt'' @ '', '' @ single_quoted (str_path file_path)
             @ '', '' @ single_quoted (''--output='' @ str_path out) @ '']'')
        @ '' returned non-zero exit status 1.'')"

definition utf8_decode_error :: exn where
  "utf8_decode_error =
     Exn UnicodeDecodeError
       (single_quoted ''utf-8'' @ '' codec can't decode byte 0xff in position 0: invalid start byte'')"

text \<open>
  A workspace with the text file \<^verbatim>\<open>src/binary_search.py\<close>; in \<open>crash_env\<close> the tool
  exits with status 1 on every file, in \<open>garbled_env\<close> it exits with status 0 and
  leaves an output file that is not UTF-8.
\<close>

definition binary_search_py :: path where
  "binary_search_py = [''tmp'', ''w'', ''src'', ''binary_search.py'']"

definition search_fs :: node where
  "search_fs =
     put workspace
       (Dir None [(''src'', Dir None [(''binary_search.py'', File (Inr ''def search(xs, x): pass''))])])
       empty_workspace"

definition crash_env :: env where
  "crash_env =
     plain_env\<lparr>code2prompt := (\<lambda>fs file_path out. Raises (called_process_error file_path out))\<rparr>"

definition garbled_env :: env where
  "garbled_env =
     plain_env\<lparr>code2prompt := (\<lambda>fs file_path out. Completed [] (Some (Inl utf8_decode_error)))\<rparr>"

section \<open>Properties of the tree serializer\<close>

lemma no_empty_values_update:
  "no_empty v \<Longrightarrow> no_empty_values m \<Longrightarrow> no_empty_values (AList.update k v m)"
  by (induction m) auto

lemma no_empty_build:
  "no_empty_values (build_tree p n)"
  "no_empty_values acc \<Longrightarrow> no_empty_values (build_items p cs acc)"
proof (induction p n and p cs acc rule: build_tree_build_items.induct)
  case (6 p nm item rest tree)
  then show ?case
    by (auto simp: Let_def no_empty_values_update)
qed simp_all

text \<open>
  Claim C5. In the tree that \<^verbatim>\<open>generate_file_tree\<close> returns, no entry at any depth has
  an empty dictionary as its value: every value is a path string or a dictionary that
  is not empty and whose values are sound in turn. A directory whose own result is
  empty leaves the dictionary of its parent as it is without that directory.
\<close>

theorem tree_has_no_empty_directory:
  "no_empty_values (generate_file_tree fs p)
   \<and> (is_dir item \<longrightarrow> build_tree (p @ [nm]) item = [] \<longrightarrow>
        build_items p (pre @ (nm, item) # post) acc = build_items p (pre @ post) acc)"
proof
  show "no_empty_values (generate_file_tree fs p)"
    by (simp add: generate_file_tree_def no_empty_build split: option.split)
  show "is_dir item \<longrightarrow> build_tree (p @ [nm]) item = [] \<longrightarrow>
        build_items p (pre @ (nm, item) # post) acc = build_items p (pre @ post) acc"
    by (cases item; induction pre arbitrary: acc) (auto simp: Let_def)
qed

text \<open>
  A directory \<^verbatim>\<open>dist\<close> that holds a hidden file only has an empty result and gets no
  entry. The tree of the small repository has no entry for \<^verbatim>\<open>dist\<close>, which is empty,
  nor for \<^verbatim>\<open>locked\<close>, which cannot be listed.
\<close>

theorem tree_has_no_empty_directory_witness:
  "is_dir (Dir None [(''.keep'', File (Inr []))])
   \<and> build_tree (workspace @ [''dist'']) (Dir None [(''.keep'', File (Inr []))]) = []
   \<and> build_items workspace
        ([(''a.py'', File (Inr ''a''))] @ (''dist'', Dir None [(''.keep'', File (Inr []))])
           # [(''b.py'', File (Inr ''b''))]) [] =
      build_items workspace ([(''a.py'', File (Inr ''a''))] @ [(''b.py'', File (Inr ''b''))]) []
   \<and> generate_file_tree demo_fs workspace =
      [(''src'', Sub [(''main.py'', Leaf ''/tmp/w/src/main.py''),
                      (''util.py'', Leaf ''/tmp/w/src/util.py''),
                      (''data.py'', Leaf ''/tmp/w/src/data.py''),
                      (''archive.py.gz'', Leaf ''/tmp/w/src/archive.py.gz'')]),
       (''README.md'', Leaf ''/tmp/w/README.md''),
       (''MIT-LICENSE'', Leaf ''/tmp/w/MIT-LICENSE''),
       (''logo.png'', Leaf ''/tmp/w/logo.png'')]
   \<and> no_empty_values (generate_file_tree demo_fs workspace)"
proof -
  have h1: "is_dir (Dir None [(''.keep'', File (Inr []))])" by simp
  have h2: "build_tree (workspace @ [''dist'']) (Dir None [(''.keep'', File (Inr []))]) = []"
    by code_simp
  have v: "generate_file_tree demo_fs workspace =
      [(''src'', Sub [(''main.py'', Leaf ''/tmp/w/src/main.py''),
                      (''util.py'', Leaf ''/tmp/w/src/util.py''),
                      (''data.py'', Leaf ''/tmp/w/src/data.py''),
                      (''archive.py.gz'', Leaf ''/tmp/w/src/archive.py.gz'')]),
       (''README.md'', Leaf ''/tmp/w/README.md''),
       (''MIT-LICENSE'', Leaf ''/tmp/w/MIT-LICENSE''),
       (''logo.png'', Leaf ''/tmp/w/logo.png'')]"
    by code_simp
  note t = tree_has_no_empty_directory[of demo_fs workspace "Dir None [(''.keep'', File (Inr []))]"
      "''dist''" "[(''a.py'', File (Inr ''a''))]" "[(''b.py'', File (Inr ''b''))]" "[]"]
  from t h1 h2 v show ?thesis by simp
qed

text \<open>
  Claim C6. When listing a directory raises, the result for that directory is the empty
  dictionary, and the build of the enclosing directory goes on: its result is the one
  it has without that entry, whatever stands before and after it. When the directory
  is the one \<^verbatim>\<open>generate_file_tree\<close> is called on, the empty dictionary is returned.
\<close>

theorem listing_error_is_local:
  "build_tree q (Dir (Some e) cs) = []
   \<and> build_items p (pre @ (nm, Dir (Some e) cs) # post) acc = build_items p (pre @ post) acc
   \<and> generate_file_tree (Dir (Some e) cs) [] = []"
proof (intro conjI)
  show "build_tree q (Dir (Some e) cs) = []" by simp
  show "build_items p (pre @ (nm, Dir (Some e) cs) # post) acc = build_items p (pre @ post) acc"
    by (induction pre arbitrary: acc) (auto simp: Let_def)
  show "generate_file_tree (Dir (Some e) cs) [] = []"
    by (simp add: generate_file_tree_def)
qed

section \<open>Properties of the file classifier\<close>

lemma rglob_below:
  "rglob sw rel n = Inr found \<Longrightarrow> (r, item) \<in> set found \<Longrightarrow> \<exists>s. r = rel @ s \<and> s \<noteq> []"
  "rglob_items sw rel cs = Inr found \<Longrightarrow> (r, item) \<in> set found \<Longrightarrow> \<exists>s. r = rel @ s \<and> s \<noteq> []"
proof (induction sw rel n and sw rel cs arbitrary: found and found rule: rglob_rglob_items.induct)
  case (1 sw rel cs)
  from "1.prems"(1) obtain below where
    b: "rglob_items sw rel cs = Inr below"
    and f: "found = map (\<lambda>(nm, item). (rel @ [nm], item)) cs @ below"
    by (auto split: sum.splits)
  from "1.prems"(2) f consider "\<exists>nm. r = rel @ [nm]" | "(r, item) \<in> set below"
    by auto
  then show ?case
  proof cases
    case 1 then show ?thesis by auto
  next
    case 2
    from "1.IH"[OF b 2] show ?thesis .
  qed
next
  case (6 sw rel nm item' rest)
  from "6.prems"(1) obtain below others where
    b: "rglob sw (rel @ [nm]) item' = Inr below" and o: "rglob_items sw rel rest = Inr others"
    and f: "found = below @ others"
    by (auto split: sum.splits)
  from "6.prems"(2) f consider "(r, item) \<in> set below" | "(r, item) \<in> set others"
    by auto
  then show ?case
  proof cases
    case 1
    from "6.IH"(1)[OF b 1] show ?thesis by auto
  next
    case 2
    from "6.IH"(2)[OF b o 2] show ?thesis .
  qed
qed (auto split: if_splits)

lemma entries_nonempty:
  "entries ev fs p = Inr found \<Longrightarrow> (r, item) \<in> set found \<Longrightarrow> r \<noteq> []"
  using rglob_below(1)[of "rglob_suppresses ev" "[]" _ found r item]
  by (auto simp: entries_def split: option.splits)

lemma scan_eq:
  "scan tmp es (c, d) =
     (c @ map (\<lambda>e. tmp @ fst e) (filter picks_code es), d @ map (\<lambda>e. tmp @ fst e) (filter picks_doc es))"
  by (induction es arbitrary: c d) (auto simp: picks_code_def picks_doc_def)

lemma name_of_append: "r \<noteq> [] \<Longrightarrow> name_of (tmp @ r) = name_of r"
  by (simp add: name_of_def)

lemma suffix_last: "suffix xs n \<Longrightarrow> xs \<noteq> [] \<Longrightarrow> last n = last xs"
  by (auto simp: suffix_def)

lemma exact_name_suffix:
  assumes "suffix ''LICENSE'' n \<or> suffix ''CONTRIBUTING'' n \<or> suffix ''CODE_OF_CONDUCT'' n"
  shows "\<not> is_binary n" "\<not> is_code n" "is_doc n"
proof -
  from assms have l: "last n = CHR ''E'' \<or> last n = CHR ''G'' \<or> last n = CHR ''T''"
    by (auto dest: suffix_last)
  show "\<not> is_binary n" using l
    by (auto simp: is_binary_def binary_patterns_def dest!: suffix_last)
  show "\<not> is_code n" using l
    by (auto simp: is_code_def code_patterns_def dest!: suffix_last)
  show "is_doc n" using assms
    by (auto simp: is_doc_def doc_patterns_def)
qed

text \<open>No name passes both the binary test and the code test.\<close>

lemma binary_and_code_exclusive: "\<not> (is_binary n \<and> is_code n)"
proof
  assume "is_binary n \<and> is_code n"
  then obtain a b where a: "a \<in> set binary_patterns" "suffix a n"
    and b: "b \<in> set code_patterns" "suffix b n"
    by (auto simp: is_binary_def is_code_def list_ex_iff)
  from a(2) b(2) have "suffix a b \<or> suffix b a"
    by (rule suffix_same_cases)
  moreover have "list_all (\<lambda>a. list_all (\<lambda>b. \<not> suffix a b \<and> \<not> suffix b a) code_patterns) binary_patterns"
    by code_simp
  ultimately show False using a(1) b(1) by (auto simp: list_all_iff)
qed

text \<open>
  Claim C2. A path whose file name ends with one of the binary suffixes is in neither
  list that \<^verbatim>\<open>find_files\<close> returns, wherever the file lies below the directory searched
  and whatever else its name ends with: the binary test comes first in the loop body.
\<close>

theorem binary_files_excluded:
  assumes "find_files ev a fs p = Inr (code_files, doc_files)" and "is_binary (name_of f)"
  shows "f \<notin> set code_files \<and> f \<notin> set doc_files"
proof -
  from assms(1) obtain found where e: "entries ev fs p = Inr found"
    and s: "scan (temp_dir a) found ([], []) = (code_files, doc_files)"
    by (auto simp: find_files_def split: sum.splits)
  have "\<not> is_binary (name_of g)" if "g \<in> set code_files \<union> set doc_files" for g
  proof -
    from that s obtain en where en: "en \<in> set found" "g = temp_dir a @ fst en"
      "\<not> is_binary (name_of (fst en))"
      by (auto simp: scan_eq picks_code_def picks_doc_def)
    from entries_nonempty[OF e, of "fst en" "snd en"] en(1) have "fst en \<noteq> []" by simp
    with en show ?thesis by (simp add: name_of_append)
  qed
  with assms(2) show ?thesis by blast
qed

theorem binary_files_excluded_witness:
  "find_files plain_env demo_analyzer demo_fs [''tmp'', ''w''] =
     Inr ([[''tmp'', ''w'', ''src'', ''main.py''], [''tmp'', ''w'', ''src'', ''util.py''],
           [''tmp'', ''w'', ''src'', ''data.py'']],
          [[''tmp'', ''w'', ''README.md''], [''tmp'', ''w'', ''MIT-LICENSE'']])
   \<and> is_binary (name_of [''tmp'', ''w'', ''src'', ''archive.py.gz''])
   \<and> [''tmp'', ''w'', ''src'', ''archive.py.gz''] \<notin>
       set [[''tmp'', ''w'', ''src'', ''main.py''], [''tmp'', ''w'', ''src'', ''util.py''],
            [''tmp'', ''w'', ''src'', ''data.py'']]
   \<and> [''tmp'', ''w'', ''src'', ''archive.py.gz''] \<notin>
       set [[''tmp'', ''w'', ''README.md''], [''tmp'', ''w'', ''MIT-LICENSE'']]"
proof -
  have h1: "find_files plain_env demo_analyzer demo_fs [''tmp'', ''w''] =
     Inr ([[''tmp'', ''w'', ''src'', ''main.py''], [''tmp'', ''w'', ''src'', ''util.py''],
           [''tmp'', ''w'', ''src'', ''data.py'']],
          [[''tmp'', ''w'', ''README.md''], [''tmp'', ''w'', ''MIT-LICENSE'']])"
    by code_simp
  have h2: "is_binary (name_of [''tmp'', ''w'', ''src'', ''archive.py.gz''])"
    by code_simp
  from binary_files_excluded[OF h1 h2] h1 h2 show ?thesis by blast
qed

text \<open>
  Claim C10. A regular file that the enumeration yields and whose name ends with
  \<^verbatim>\<open>LICENSE\<close>, \<^verbatim>\<open>CONTRIBUTING\<close> or \<^verbatim>\<open>CODE_OF_CONDUCT\<close>, equal to it or not, is in the list
  of documentation files and not in the list of code files: the suffix test runs over
  every member of the documentation set.
\<close>

theorem name_suffix_is_documentation:
  assumes "entries ev fs p = Inr found" and "(rel, item) \<in> set found" and "is_file item"
    and "suffix ''LICENSE'' (name_of rel) \<or> suffix ''CONTRIBUTING'' (name_of rel)
         \<or> suffix ''CODE_OF_CONDUCT'' (name_of rel)"
  shows "\<exists>code_files doc_files. find_files ev a fs p = Inr (code_files, doc_files)
           \<and> temp_dir a @ rel \<in> set doc_files \<and> temp_dir a @ rel \<notin> set code_files"
proof -
  note c = exact_name_suffix[OF assms(4)]
  have d: "picks_doc (rel, item)" using assms(3) c by (simp add: picks_doc_def)
  have "temp_dir a @ rel \<in> set (map (\<lambda>e. temp_dir a @ fst e) (filter picks_doc found))"
    using assms(2) d by force
  moreover have "temp_dir a @ rel \<notin> set (map (\<lambda>e. temp_dir a @ fst e) (filter picks_code found))"
    using c(2) by (auto simp: picks_code_def)
  ultimately show ?thesis using assms(1)
    by (simp add: find_files_def scan_eq)
qed

theorem name_suffix_is_documentation_witness:
  "entries plain_env (Dir None [(''MIT-LICENSE'', File (Inr ''MIT''))]) [] =
     Inr [([''MIT-LICENSE''], File (Inr ''MIT''))]
   \<and> is_file (File (Inr ''MIT''))
   \<and> suffix ''LICENSE'' (name_of [''MIT-LICENSE'']) \<and> name_of [''MIT-LICENSE''] \<noteq> ''LICENSE''
   \<and> (\<exists>code_files doc_files.
         find_files plain_env demo_analyzer (Dir None [(''MIT-LICENSE'', File (Inr ''MIT''))]) [] =
           Inr (code_files, doc_files)
         \<and> [''tmp'', ''w'', ''MIT-LICENSE''] \<in> set doc_files
         \<and> [''tmp'', ''w'', ''MIT-LICENSE''] \<notin> set code_files)"
proof -
  have h1: "entries plain_env (Dir None [(''MIT-LICENSE'', File (Inr ''MIT''))]) [] =
     Inr [([''MIT-LICENSE''], File (Inr ''MIT''))]"
    by code_simp
  have h2: "([''MIT-LICENSE''], File (Inr ''MIT'')) \<in> set [([''MIT-LICENSE''], File (Inr ''MIT''))]"
    by simp
  have h3: "is_file (File (Inr ''MIT''))" by simp
  have h4: "suffix ''LICENSE'' (name_of [''MIT-LICENSE''])" by code_simp
  have h5: "name_of [''MIT-LICENSE''] \<noteq> ''LICENSE''" by code_simp
  have t: "temp_dir demo_analyzer @ [''MIT-LICENSE''] = [''tmp'', ''w'', ''MIT-LICENSE'']"
    by (simp add: demo_analyzer_def workspace_def)
  from name_suffix_is_documentation[OF h1 h2 h3 disjI1, OF h4, of demo_analyzer] h1 h3 h4 h5
  show ?thesis unfolding t by blast
qed

section \<open>Facts about the file system\<close>

lemma lookup_remove_same: "p \<noteq> [] \<Longrightarrow> lookup (remove p fs) p = None"
proof (induction p fs rule: remove.induct)
  case (2 x e cs)
  then show ?case by (simp add: delete_conv')
next
  case (3 x y ys e cs)
  then show ?case
    by (auto simp: map_of_map_entry split: option.splits)
qed (auto split: node.splits)

lemma lookup_remove_None: "lookup fs q = None \<Longrightarrow> lookup (remove p fs) q = None"
proof (induction p fs arbitrary: q rule: remove.induct)
  case (2 x e cs)
  then show ?case by (cases q) (auto simp: delete_conv' split: option.splits)
next
  case (3 x y ys e cs)
  then show ?case
    by (cases q) (auto simp: map_of_map_entry split: option.splits)
qed auto

lemma lookup_below_File: "q \<noteq> [] \<Longrightarrow> lookup (File c) q = None"
  by (cases q) auto

lemma lookup_put_File_None:
  "lookup fs q = None \<Longrightarrow> \<not> prefix q p \<Longrightarrow> lookup (put p (File c) fs) q = None"
proof (induction p "File c" fs arbitrary: q rule: put.induct)
  case (1 n)
  then show ?case by (cases q) auto
next
  case (2 x e cs)
  then show ?case
    by (cases q) (auto simp: update_conv' lookup_below_File split: option.splits)
next
  case (3 x y ys e cs)
  then show ?case
    by (cases q) (auto simp: map_of_map_entry split: option.splits)
qed auto

lemma lookup_mkdir_parents:
  "mkdir_parents p fs = Inr fs' \<Longrightarrow> \<not> prefix q p \<Longrightarrow> lookup fs' q = lookup fs q"
proof (induction p fs arbitrary: q fs' rule: mkdir_parents.induct)
  case (1 n)
  then show ?case by (auto split: if_splits)
next
  case (2 x xs n)
  show ?case
  proof (cases n)
    case (Dir e cs)
    let ?c = "case map_of cs x of None \<Rightarrow> Dir None [] | Some c \<Rightarrow> c"
    from "2.prems"(1) Dir obtain c' where c': "mkdir_parents xs ?c = Inr c'"
      and fs': "fs' = Dir e (AList.update x c' cs)"
      by (auto split: sum.splits)
    from "2.prems"(2) obtain y ys where q: "q = y # ys" by (cases q) auto
    show ?thesis
    proof (cases "y = x")
      case True
      with "2.prems"(2) q have np: "\<not> prefix ys xs" by simp
      have "lookup c' ys = lookup ?c ys"
        using "2.IH"[OF Dir c' np] .
      moreover have "ys \<noteq> []" using np by auto
      ultimately show ?thesis using Dir fs' q True
        by (cases ys) (auto simp: update_conv' split: option.splits)
    next
      case False
      then show ?thesis using Dir fs' q by (simp add: update_conv')
    qed
  qed (use "2.prems" in auto)
qed

section \<open>Facts about the loop of the prompt generator\<close>

lemma split_on_no_sep: "c \<notin> set t \<Longrightarrow> split_on c cur t = [rev cur @ t]"
  by (induction t arbitrary: cur) auto

lemma split_on_not_Nil: "split_on c cur s \<noteq> []"
  by (induction s arbitrary: cur) auto

lemma split_on_last:
  "c \<notin> set t \<Longrightarrow> \<exists>u. last (split_on c cur (s @ t)) = u @ t"
proof (induction s arbitrary: cur)
  case Nil
  then show ?case by (simp add: split_on_no_sep)
next
  case (Cons x xs)
  then show ?case by (simp add: split_on_not_Nil)
qed

lemma split_path_not_Nil: "split_path (s @ ''.prompt.txt'') \<noteq> []"
proof -
  obtain u where u: "last (split_on (CHR ''/'') [] (s @ ''.prompt.txt'')) = u @ ''.prompt.txt''"
    using split_on_last[of "CHR ''/''" "''.prompt.txt''" "[]" s] by auto
  have "last (split_on (CHR ''/'') [] (s @ ''.prompt.txt'')) \<in> set (split_on (CHR ''/'') [] (s @ ''.prompt.txt''))"
    by (simp add: split_on_not_Nil)
  with u have "u @ ''.prompt.txt'' \<in> set (split_on (CHR ''/'') [] (s @ ''.prompt.txt''))" by simp
  moreover have "u @ ''.prompt.txt'' \<noteq> [] \<and> u @ ''.prompt.txt'' \<noteq> ''.''"
    by (cases u) auto
  ultimately have "u @ ''.prompt.txt'' \<in> set (split_path (s @ ''.prompt.txt''))"
    unfolding split_path_def by simp
  then show ?thesis by auto
qed

lemma output_file_not_Nil: "output_file tmp f \<noteq> []"
  by (simp add: output_file_def split_path_not_Nil)

lemma output_file_key: "key_of tmp g = key_of tmp f \<Longrightarrow> output_file tmp g = output_file tmp f"
  by (simp add: output_file_def)

lemma record_outcome_other: "k \<noteq> key \<Longrightarrow> record_outcome key oc m k = m k"
  by (auto simp: record_outcome_def split: outcome.splits)

lemma process_file_other_keys:
  "process_file ev tmp (m, fs) f = (Inr m', fs') \<Longrightarrow> k \<noteq> key_of tmp f \<Longrightarrow> m' k = m k"
  by (auto simp: process_file_def Let_def record_outcome_other split: sum.splits)

lemma prompts_loop_other_keys:
  "prompts_loop ev tmp files (m, fs) = (Inr m', fs') \<Longrightarrow> k \<notin> key_of tmp ` set files \<Longrightarrow> m' k = m k"
proof (induction files arbitrary: m fs)
  case Nil
  then show ?case by simp
next
  case (Cons f files)
  from Cons.prems(1) obtain m1 fs1 where s: "process_file ev tmp (m, fs) f = (Inr m1, fs1)"
    and r: "prompts_loop ev tmp files (m1, fs1) = (Inr m', fs')"
    by (auto split: prod.splits sum.splits)
  from Cons.IH[OF r] Cons.prems(2) have "m' k = m1 k" by simp
  with process_file_other_keys[OF s, of k] Cons.prems(2) show ?case by simp
qed

lemma prompts_loop_dom:
  "prompts_loop ev tmp files (m, fs) = (Inr m', fs') \<Longrightarrow> dom m' \<subseteq> dom m \<union> key_of tmp ` set files"
proof -
  assume a: "prompts_loop ev tmp files (m, fs) = (Inr m', fs')"
  have "k \<in> dom m" if "k \<in> dom m'" "k \<notin> key_of tmp ` set files" for k
    using prompts_loop_other_keys[OF a that(2)] that(1) by (auto simp: dom_def)
  then show ?thesis by blast
qed

lemma render_keeps_absent:
  assumes "lookup fs q = None" and "\<not> prefix q out"
  shows "lookup (snd (render ev fs f out)) q = None"
  using assms
  by (auto simp: render_def store_output_def Let_def lookup_put_File_None
           split: tool_result.splits option.splits sum.splits)

lemma cleanup_keeps_absent: "lookup fs q = None \<Longrightarrow> lookup (cleanup ev fs out) q = None"
  by (auto simp: cleanup_def unlink_def lookup_remove_None split: option.splits node.splits sum.splits)

lemma prefix_butlast: "\<not> prefix q p \<Longrightarrow> \<not> prefix q (butlast p)"
  by (metis prefix_order.trans prefixeq_butlast)

lemma process_file_keeps_absent:
  assumes "lookup fs q = None" and "\<not> prefix q (output_file tmp g)"
  shows "lookup (snd (process_file ev tmp (m, fs) g)) q = None"
proof (cases "mkdir_parents (parent (output_file tmp g)) fs")
  case (Inl e)
  then show ?thesis using assms(1) by (simp add: process_file_def)
next
  case (Inr fs1)
  have "lookup fs1 q = None"
    using lookup_mkdir_parents[OF Inr, of q] assms prefix_butlast[OF assms(2)]
    by (simp add: parent_def)
  then show ?thesis using Inr assms(2)
    by (simp add: process_file_def Let_def cleanup_keeps_absent render_keeps_absent)
qed

lemma prompts_loop_keeps_absent:
  "lookup fs q = None \<Longrightarrow> \<forall>g\<in>set files. \<not> prefix q (output_file tmp g) \<Longrightarrow>
   lookup (snd (prompts_loop ev tmp files (m, fs))) q = None"
proof (induction files arbitrary: m fs)
  case Nil
  then show ?case by simp
next
  case (Cons g files)
  have a: "lookup (snd (process_file ev tmp (m, fs) g)) q = None"
    using process_file_keeps_absent[of fs q tmp g ev m] Cons.prems by simp
  show ?case
  proof (cases "process_file ev tmp (m, fs) g")
    case (Pair r fs1)
    with a have b: "lookup fs1 q = None" by simp
    show ?thesis
    proof (cases r)
      case (Inl e)
      with Pair b show ?thesis by simp
    next
      case (Inr m1)
      with Pair Cons.IH[OF b, of m1] Cons.prems(2) show ?thesis by simp
    qed
  qed
qed

lemma loop_step:
  assumes "mkdir_parents (parent (output_file tmp f)) fs = Inr fs1"
    and "render ev fs1 f (output_file tmp f) = (oc, fs2)"
  shows "prompts_loop ev tmp (f # rest) (m, fs) =
           prompts_loop ev tmp rest
             (record_outcome (key_of tmp f) oc m, cleanup ev fs2 (output_file tmp f))"
  using assms by (simp add: process_file_def Let_def)

lemma loop_result_key:
  assumes "prompts_loop ev tmp (f # rest) (m, fs) = prompts_loop ev tmp rest (m1, fs1)"
    and "prompts_loop ev tmp (f # rest) (m, fs) = (Inr m', fs')"
    and "key_of tmp f \<notin> key_of tmp ` set rest"
  shows "m' (key_of tmp f) = m1 (key_of tmp f)"
  using prompts_loop_other_keys[of ev tmp rest m1 fs1 m' fs' "key_of tmp f"] assms by simp

text \<open>How the body of the \<^verbatim>\<open>try\<close> comes to raise into the outer handler.\<close>

lemma render_raises:
  "render ev fs f out = (Raised e, fs2) \<longleftrightarrow>
     (\<exists>e0. code2prompt ev fs f out = Raises e0 \<and>
        (if kind e0 = FileNotFoundError
         then read_text fs f = Inl e \<and> kind e \<noteq> UnicodeDecodeError \<and> fs2 = fs
         else e = e0 \<and> fs2 = fs))
     \<or> (\<exists>stdout stored. code2prompt ev fs f out = Completed stdout stored \<and>
          fs2 = store_output out stored fs \<and> exists_path fs2 out \<and>
          (\<exists>e1. read_text fs2 out = Inl e1 \<and>
             (if kind e1 = FileNotFoundError
              then read_text fs2 f = Inl e \<and> kind e \<noteq> UnicodeDecodeError
              else e = e1)))"
  by (cases "code2prompt ev fs f out")
     (auto simp: render_def raw_content_def Let_def split: sum.splits if_splits)

section \<open>Properties of the prompt generator\<close>

text \<open>
  The theorems of this section speak of one iteration of the loop of
  \<^verbatim>\<open>generate_file_prompts\<close>, at any point of it: \<open>m\<close> is the dictionary so far,
  \<open>fs\<close> the file system, \<open>f\<close> the file whose turn it is and \<open>rest\<close> the files after
  it. \<open>fs1\<close> is the file system once the directory of the output file is there.

  What the outer handler does. When the body of the \<^verbatim>\<open>try\<close> raises \<open>e\<close> into it, the
  loop goes on with the remaining files, and the dictionary has the error text under the
  key of the file, unless \<^verbatim>\<open>str(e)\<close> holds the word \<^verbatim>\<open>binary\<close> or the word
  \<^verbatim>\<open>UnicodeDecodeError\<close>: then the dictionary is the one before.
\<close>

lemma handler_records_error:
  assumes "mkdir_parents (parent (output_file tmp f)) fs = Inr fs1"
    and "render ev fs1 f (output_file tmp f) = (Raised e, fs2)"
  shows "prompts_loop ev tmp (f # rest) (m, fs) =
           prompts_loop ev tmp rest
             (if is_binary_error e then m
              else m(key_of tmp f \<mapsto> ''Error processing file: '' @ str_of e),
              cleanup ev fs2 (output_file tmp f))
         \<and> (\<forall>m' fs'. prompts_loop ev tmp (f # rest) (m, fs) = (Inr m', fs') \<longrightarrow>
               key_of tmp f \<notin> key_of tmp ` set rest \<longrightarrow>
               m' (key_of tmp f) =
                 (if is_binary_error e then m (key_of tmp f)
                  else Some (''Error processing file: '' @ str_of e)))"
proof -
  let ?m1 = "if is_binary_error e then m else m(key_of tmp f \<mapsto> ''Error processing file: '' @ str_of e)"
  have step: "prompts_loop ev tmp (f # rest) (m, fs) =
      prompts_loop ev tmp rest (?m1, cleanup ev fs2 (output_file tmp f))"
    using loop_step[OF assms, of rest m] by (simp add: record_outcome_def)
  have "m' (key_of tmp f) = ?m1 (key_of tmp f)"
    if "prompts_loop ev tmp (f # rest) (m, fs) = (Inr m', fs')"
      and "key_of tmp f \<notin> key_of tmp ` set rest" for m' fs'
    using loop_result_key[OF step that] .
  then show ?thesis using step by auto
qed

text \<open>The tool exits with status 1 on \<^verbatim>\<open>data.py\<close>: the error text is stored.\<close>

lemma tool_crash_is_recorded:
  "mkdir_parents (parent (output_file workspace data_py)) demo_fs = Inr demo_fs
   \<and> render tool_env demo_fs data_py (output_file workspace data_py) =
       (Raised (Exn CalledProcessError ''Command returned non-zero exit status 1.''), demo_fs)
   \<and> \<not> is_binary_error (Exn CalledProcessError ''Command returned non-zero exit status 1.'')
   \<and> generate_file_prompts tool_env demo_analyzer [data_py] demo_fs =
       (Inr [''src/data.py'' \<mapsto> ''Error processing file: Command returned non-zero exit status 1.''],
        demo_fs)"
proof -
  have h1: "mkdir_parents (parent (output_file workspace data_py)) demo_fs = Inr demo_fs"
    by code_simp
  have h2: "render tool_env demo_fs data_py (output_file workspace data_py) =
       (Raised (Exn CalledProcessError ''Command returned non-zero exit status 1.''), demo_fs)"
    by code_simp
  have b: "\<not> is_binary_error (Exn CalledProcessError ''Command returned non-zero exit status 1.'')"
    by code_simp
  have c: "cleanup tool_env demo_fs (output_file workspace data_py) = demo_fs"
    by code_simp
  have k: "key_of workspace data_py = ''src/data.py''"
    by code_simp
  have "generate_file_prompts tool_env demo_analyzer [data_py] demo_fs =
       (Inr [''src/data.py'' \<mapsto> ''Error processing file: Command returned non-zero exit status 1.''],
        demo_fs)"
    using handler_records_error[OF h1 h2, of "[]" Map.empty, THEN conjunct1] b c k
    by (simp add: generate_file_prompts_def demo_analyzer_def)
  with h1 h2 b show ?thesis by blast
qed

text \<open>
  Claim C3: an error that reaches the outer handler is stored as an error text under
  the key of the file, unless its message tells of a problem with binary content; then
  the file is skipped. The handler does not do that. It looks for two words in
  \<^verbatim>\<open>str(e)\<close>, and this test goes wrong both ways. The tool exits with status 1 on the text
  file \<^verbatim>\<open>binary_search.py\<close>: the text of the error shows the command, with it the path
  and so the word \<^verbatim>\<open>binary\<close>, and the file is skipped, with no entry. The tool leaves
  an output file for \<^verbatim>\<open>main.py\<close> that is not UTF-8: the text of the decoding error has
  neither word, and an error text is stored. (The handler of the fallback, which
  selects the decoding error by its class, skips such a file.)
\<close>

theorem marker_test_misjudges:
  "read_text search_fs binary_search_py = Inr ''def search(xs, x): pass''
   \<and> render crash_env search_fs binary_search_py (output_file workspace binary_search_py) =
       (Raised (called_process_error binary_search_py (output_file workspace binary_search_py)),
        search_fs)
   \<and> str_of (called_process_error binary_search_py (output_file workspace binary_search_py)) =
       ''Command '['code2prompt', '/tmp/w/src/binary_search.py', '--output=/tmp/w/src/binary_search.py.prompt.txt']' returned non-zero exit status 1.''
   \<and> is_binary_error (called_process_error binary_search_py (output_file workspace binary_search_py))
   \<and> (case fst (generate_file_prompts crash_env demo_analyzer [binary_search_py] search_fs) of
         Inl e \<Rightarrow> Some (str_of e) | Inr m \<Rightarrow> m ''src/binary_search.py'') = None
   \<and> render garbled_env demo_fs main_py (output_file workspace main_py) =
       (Raised utf8_decode_error,
        store_output (output_file workspace main_py) (Some (Inl utf8_decode_error)) demo_fs)
   \<and> kind utf8_decode_error = UnicodeDecodeError
   \<and> \<not> is_binary_error utf8_decode_error
   \<and> (case fst (generate_file_prompts garbled_env demo_analyzer [main_py] demo_fs) of
         Inl e \<Rightarrow> None | Inr m \<Rightarrow> m ''src/main.py'') =
       Some (''Error processing file: '' @ str_of utf8_decode_error)"
  by code_simp





text \<open>
  Claim C8, as amended. When the tool exits with status 0 and has left a text file at
  the output path, the text of that file is stored under the key of the file and the
  loop goes on with the remaining files, whether deleting the output file fails or
  not. When deleting does not fail, the output file is gone at the end of the
  iteration; when it fails, nothing is raised and the file system stays as the tool
  left it. When the loop has returned, the text is still under the key if no later
  file has the same key, and the path is still absent if deleting did not fail and no
  later file has its output path at or below this one.
\<close>

theorem rendered_prompt_is_output_file:
  assumes "mkdir_parents (parent (output_file tmp f)) fs = Inr fs1"
    and "code2prompt ev fs1 f (output_file tmp f) = Completed stdout stored"
    and "lookup (store_output (output_file tmp f) stored fs1) (output_file tmp f) =
           Some (File (Inr content))"
  shows "prompts_loop ev tmp (f # rest) (m, fs) =
           prompts_loop ev tmp rest
             (m(key_of tmp f \<mapsto> content),
              cleanup ev (store_output (output_file tmp f) stored fs1) (output_file tmp f))
         \<and> (unlink_error ev (store_output (output_file tmp f) stored fs1) (output_file tmp f) = None
               \<longrightarrow>
             cleanup ev (store_output (output_file tmp f) stored fs1) (output_file tmp f) =
               remove (output_file tmp f) (store_output (output_file tmp f) stored fs1)
             \<and> \<not> exists_path
                   (cleanup ev (store_output (output_file tmp f) stored fs1) (output_file tmp f))
                   (output_file tmp f))
         \<and> (unlink_error ev (store_output (output_file tmp f) stored fs1) (output_file tmp f) \<noteq> None
               \<longrightarrow>
             cleanup ev (store_output (output_file tmp f) stored fs1) (output_file tmp f) =
               store_output (output_file tmp f) stored fs1)
         \<and> (\<forall>m' fs'. prompts_loop ev tmp (f # rest) (m, fs) = (Inr m', fs') \<longrightarrow>
               (key_of tmp f \<notin> key_of tmp ` set rest \<longrightarrow> m' (key_of tmp f) = Some content)
               \<and> (unlink_error ev (store_output (output_file tmp f) stored fs1) (output_file tmp f)
                      = None \<longrightarrow>
                    (\<forall>g\<in>set rest. \<not> prefix (output_file tmp f) (output_file tmp g)) \<longrightarrow>
                    \<not> exists_path fs' (output_file tmp f)))"
proof (intro conjI allI impI)
  let ?out = "output_file tmp f"
  let ?fs2 = "store_output ?out stored fs1"
  have r: "render ev fs1 f ?out = (Stored content, ?fs2)"
    using assms(2,3) by (simp add: render_def Let_def exists_path_def read_text_def)
  show step: "prompts_loop ev tmp (f # rest) (m, fs) =
      prompts_loop ev tmp rest (m(key_of tmp f \<mapsto> content), cleanup ev ?fs2 ?out)"
    using loop_step[OF assms(1) r, of rest m] by (simp add: record_outcome_def)
  have gone: "lookup (remove ?out ?fs2) ?out = None"
    by (simp add: lookup_remove_same output_file_not_Nil)
  show c: "cleanup ev ?fs2 ?out = remove ?out ?fs2" if "unlink_error ev ?fs2 ?out = None"
    using that assms(3) by (simp add: cleanup_def exists_path_def unlink_def)
  show "\<not> exists_path (cleanup ev ?fs2 ?out) ?out" if "unlink_error ev ?fs2 ?out = None"
    using c[OF that] gone by (simp add: exists_path_def)
  show "cleanup ev ?fs2 ?out = ?fs2" if "unlink_error ev ?fs2 ?out \<noteq> None"
    using that assms(3) by (auto simp: cleanup_def exists_path_def unlink_def)
  show "m' (key_of tmp f) = Some content"
    if "prompts_loop ev tmp (f # rest) (m, fs) = (Inr m', fs')"
      and "key_of tmp f \<notin> key_of tmp ` set rest" for m' fs'
    using loop_result_key[OF step that] by simp
  show "\<not> exists_path fs' ?out"
    if run: "prompts_loop ev tmp (f # rest) (m, fs) = (Inr m', fs')"
      and del: "unlink_error ev ?fs2 ?out = None"
      and apart: "\<forall>g\<in>set rest. \<not> prefix ?out (output_file tmp g)" for m' fs'
  proof -
    have "lookup (cleanup ev ?fs2 ?out) ?out = None"
      using c[OF del] gone by simp
    from prompts_loop_keeps_absent[OF this apart, of ev "m(key_of tmp f \<mapsto> content)"] step run
    show ?thesis by (simp add: exists_path_def)
  qed
qed

text \<open>
  The tool stores the prompt of \<^verbatim>\<open>main.py\<close>. Where deleting works, the file system is
  afterwards as before; where it does not, the prompt is in the dictionary all the
  same and the output file stays.
\<close>

theorem rendered_prompt_is_output_file_witness:
  "mkdir_parents (parent (output_file workspace main_py)) demo_fs = Inr demo_fs
   \<and> code2prompt tool_env demo_fs main_py (output_file workspace main_py) =
       Completed [] (Some (Inr ''PROMPT print(1)''))
   \<and> code2prompt stuck_env demo_fs main_py (output_file workspace main_py) =
       Completed [] (Some (Inr ''PROMPT print(1)''))
   \<and> lookup (store_output (output_file workspace main_py) (Some (Inr ''PROMPT print(1)'')) demo_fs)
        (output_file workspace main_py) = Some (File (Inr ''PROMPT print(1)''))
   \<and> unlink_error tool_env
        (store_output (output_file workspace main_py) (Some (Inr ''PROMPT print(1)'')) demo_fs)
        (output_file workspace main_py) = None
   \<and> generate_file_prompts tool_env demo_analyzer [main_py] demo_fs =
       (Inr [''src/main.py'' \<mapsto> ''PROMPT print(1)''], demo_fs)
   \<and> \<not> exists_path demo_fs (output_file workspace main_py)
   \<and> unlink_error stuck_env
        (store_output (output_file workspace main_py) (Some (Inr ''PROMPT print(1)'')) demo_fs)
        (output_file workspace main_py) \<noteq> None
   \<and> generate_file_prompts stuck_env demo_analyzer [main_py] demo_fs =
       (Inr [''src/main.py'' \<mapsto> ''PROMPT print(1)''],
        store_output (output_file workspace main_py) (Some (Inr ''PROMPT print(1)'')) demo_fs)"
proof -
  let ?out = "output_file workspace main_py"
  let ?fs2 = "store_output ?out (Some (Inr ''PROMPT print(1)'')) demo_fs"
  have h1: "mkdir_parents (parent ?out) demo_fs = Inr demo_fs"
    by code_simp
  have h2: "code2prompt tool_env demo_fs main_py ?out = Completed [] (Some (Inr ''PROMPT print(1)''))"
    by code_simp
  have h2': "code2prompt stuck_env demo_fs main_py ?out = Completed [] (Some (Inr ''PROMPT print(1)''))"
    by code_simp
  have h3: "lookup ?fs2 ?out = Some (File (Inr ''PROMPT print(1)''))"
    by code_simp
  have d: "unlink_error tool_env ?fs2 ?out = None"
    by (simp add: tool_env_def plain_env_def)
  have d': "unlink_error stuck_env ?fs2 ?out \<noteq> None"
    by (simp add: stuck_env_def tool_env_def plain_env_def)
  have r: "remove ?out ?fs2 = demo_fs"
    by code_simp
  have k: "key_of workspace main_py = ''src/main.py''"
    by code_simp
  note t = rendered_prompt_is_output_file[OF h1 h2 h3, of "[]" Map.empty]
  note t' = rendered_prompt_is_output_file[OF h1 h2' h3, of "[]" Map.empty]
  have c: "cleanup tool_env ?fs2 ?out = demo_fs"
    using t[THEN conjunct2, THEN conjunct1] d r by simp
  have "generate_file_prompts tool_env demo_analyzer [main_py] demo_fs =
       (Inr [''src/main.py'' \<mapsto> ''PROMPT print(1)''], demo_fs)"
    using t[THEN conjunct1] c k by (simp add: generate_file_prompts_def demo_analyzer_def)
  moreover have "\<not> exists_path demo_fs ?out"
    using t[THEN conjunct2, THEN conjunct1] d c by simp
  moreover have c': "cleanup stuck_env ?fs2 ?out = ?fs2"
    using t'[THEN conjunct2, THEN conjunct2, THEN conjunct1] d' by simp
  have "generate_file_prompts stuck_env demo_analyzer [main_py] demo_fs =
       (Inr [''src/main.py'' \<mapsto> ''PROMPT print(1)''], ?fs2)"
    using t'[THEN conjunct1] c' k by (simp add: generate_file_prompts_def demo_analyzer_def)
  ultimately show ?thesis using h1 h2 h2' h3 d d' by blast
qed

text \<open>
  Claim C8 as it was stated does not hold: when deleting fails, the handler around
  \<^verbatim>\<open>unlink\<close> logs, and the output file is still there when
  \<^verbatim>\<open>generate_file_prompts\<close> has returned.
\<close>

theorem output_file_persists:
  "code2prompt stuck_env demo_fs main_py (output_file workspace main_py) =
     Completed [] (Some (Inr ''PROMPT print(1)''))
   \<and> (case fst (generate_file_prompts stuck_env demo_analyzer [main_py] demo_fs) of
         Inl e \<Rightarrow> None | Inr m \<Rightarrow> m ''src/main.py'') = Some ''PROMPT print(1)''
   \<and> exists_path (snd (generate_file_prompts stuck_env demo_analyzer [main_py] demo_fs))
        (output_file workspace main_py)
   \<and> read_text (snd (generate_file_prompts stuck_env demo_analyzer [main_py] demo_fs))
        (output_file workspace main_py) = Inr ''PROMPT print(1)''"
  by code_simp

section \<open>Keys of the prompt dictionary\<close>

lemma append_sep_eq:
  "c \<notin> set a \<Longrightarrow> c \<notin> set a' \<Longrightarrow> a @ c # X = a' @ c # X' \<Longrightarrow> a = a' \<and> X = X'"
proof (induction a arbitrary: a')
  case Nil
  then show ?case by (cases a') auto
next
  case (Cons x a)
  then show ?case by (cases a') auto
qed

lemma join_with_inj:
  "\<forall>n\<in>set xs. c \<notin> set n \<Longrightarrow> \<forall>n\<in>set ys. c \<notin> set n \<Longrightarrow> xs \<noteq> [] \<Longrightarrow> ys \<noteq> [] \<Longrightarrow>
   join_with c xs = join_with c ys \<Longrightarrow> xs = ys"
proof (induction c xs arbitrary: ys rule: join_with.induct)
  case (1 c)
  then show ?case by simp
next
  case (2 c x)
  from "2.prems"(4) obtain y ys' where ys: "ys = y # ys'" by (cases ys) auto
  show ?case
  proof (cases ys')
    case Nil
    with ys "2.prems" show ?thesis by simp
  next
    case (Cons y' ys'')
    with ys "2.prems"(5) have "x = y @ c # join_with c (y' # ys'')" by simp
    then have "c \<in> set x" by simp
    with "2.prems"(1) show ?thesis by simp
  qed
next
  case (3 c x x' xs)
  from "3.prems"(4) obtain y ys' where ys: "ys = y # ys'" by (cases ys) auto
  show ?case
  proof (cases ys')
    case Nil
    with ys "3.prems"(5) have "y = x @ c # join_with c (x' # xs)" by simp
    then have "c \<in> set y" by simp
    with "3.prems"(2) ys show ?thesis by simp
  next
    case (Cons y' ys'')
    with ys "3.prems"(5) have e: "x @ c # join_with c (x' # xs) = y @ c # join_with c (y' # ys'')"
      by simp
    have "c \<notin> set x" "c \<notin> set y" using "3.prems"(1,2) ys by auto
    from append_sep_eq[OF this e] have xy: "x = y" and j: "join_with c (x' # xs) = join_with c (y' # ys'')"
      by auto
    have "x' # xs = y' # ys''"
      using "3.IH"[of "y' # ys''"] "3.prems"(1,2) ys Cons j by auto
    with xy ys Cons show ?thesis by simp
  qed
qed

lemma join_with_dot:
  assumes "\<forall>n\<in>set ys. wf_name n" and "ys \<noteq> []"
  shows "join_with (CHR ''/'') ys \<noteq> ''.''"
proof -
  from assms(2) obtain y ys' where ys: "ys = y # ys'" by (cases ys) auto
  show ?thesis
  proof (cases ys')
    case Nil
    with ys assms(1) show ?thesis by (simp add: wf_name_def)
  next
    case (Cons y' ys'')
    have "CHR ''/'' \<in> set (join_with (CHR ''/'') ys)" using ys Cons by simp
    then show ?thesis by auto
  qed
qed

lemma str_rel_inj:
  assumes "\<forall>n\<in>set xs. wf_name n" and "\<forall>n\<in>set ys. wf_name n" and "str_rel xs = str_rel ys"
  shows "xs = ys"
proof (cases "xs = []")
  case True
  then show ?thesis using assms(3) join_with_dot[OF assms(2)]
    by (auto simp: str_rel_def split: if_splits)
next
  case False
  then have "ys \<noteq> []" using assms(3) join_with_dot[OF assms(1)]
    by (auto simp: str_rel_def split: if_splits)
  with False assms show ?thesis
    using join_with_inj[of xs "CHR ''/''" ys] by (auto simp: str_rel_def wf_name_def)
qed

lemma key_of_inj:
  assumes "prefix tmp f" and "prefix tmp g"
    and "\<forall>n\<in>set f. wf_name n" and "\<forall>n\<in>set g. wf_name n"
    and "key_of tmp f = key_of tmp g"
  shows "f = g"
proof -
  from assms(1,2) obtain r s where f: "f = tmp @ r" and g: "g = tmp @ s"
    by (auto simp: prefix_def)
  from assms(5) have "str_rel r = str_rel s"
    by (simp add: key_of_def relative_to_def f g)
  from str_rel_inj[OF _ _ this] assms(3,4) f g show ?thesis by auto
qed

lemma record_outcome_entry:
  "record_outcome key oc m key = (case entry_of oc of None \<Rightarrow> m key | Some v \<Rightarrow> Some v)"
  by (auto simp: record_outcome_def entry_of_def split: outcome.splits)

lemma prompts_loop_append:
  "prompts_loop ev tmp (pre @ post) st =
     (case prompts_loop ev tmp pre st of
        (Inl e, fs) \<Rightarrow> (Inl e, fs)
      | (Inr m, fs) \<Rightarrow> prompts_loop ev tmp post (m, fs))"
  by (induction pre arbitrary: st) (auto split: prod.splits sum.splits)

lemma process_file_Inr:
  assumes "process_file ev tmp (m, fs) f = (Inr m2, fs3)"
  obtains fs1 where "mkdir_parents (parent (output_file tmp f)) fs = Inr fs1"
    and "m2 = record_outcome (key_of tmp f) (fst (render ev fs1 f (output_file tmp f))) m"
  using assms by (auto simp: process_file_def Let_def split: sum.splits)

text \<open>
  Claim C7, as amended. For a list of different input files that all lie below the
  workspace directory (the components of their paths well formed): different files
  have different keys, which are their paths relative to the workspace; every key of
  the returned dictionary is the key of an input file; and under the key of each input
  file the returned dictionary has what the iteration of that very file has left
  there, its prompt or its error text, and nothing when that iteration stored
  nothing. So there is one entry for each file that stored one, and no entry of a
  file is overwritten by that of another file.
\<close>

theorem one_entry_per_workspace_file:
  assumes run: "generate_file_prompts ev a (pre @ f # post) fs = (Inr m, fs')"
    and ws: "\<forall>g\<in>set (pre @ f # post). prefix (temp_dir a) g \<and> (\<forall>n\<in>set g. wf_name n)"
    and dist: "distinct (pre @ f # post)"
  shows "inj_on (key_of (temp_dir a)) (set (pre @ f # post))
       \<and> dom m \<subseteq> key_of (temp_dir a) ` set (pre @ f # post)
       \<and> (\<exists>m1 fs1 fs2.
             prompts_loop ev (temp_dir a) pre (Map.empty, fs) = (Inr m1, fs1)
             \<and> mkdir_parents (parent (output_file (temp_dir a) f)) fs1 = Inr fs2
             \<and> m (key_of (temp_dir a) f) =
                 entry_of (fst (render ev fs2 f (output_file (temp_dir a) f))))"
proof (intro conjI)
  let ?tmp = "temp_dir a"
  let ?k = "key_of ?tmp"
  show inj: "inj_on ?k (set (pre @ f # post))"
  proof (rule inj_onI)
    fix g h
    assume "g \<in> set (pre @ f # post)" "h \<in> set (pre @ f # post)" "?k g = ?k h"
    with ws show "g = h"
      using key_of_inj[of ?tmp g h] by blast
  qed
  show "dom m \<subseteq> ?k ` set (pre @ f # post)"
    using prompts_loop_dom[of ev ?tmp "pre @ f # post" Map.empty fs m fs'] run
    by (simp add: generate_file_prompts_def)
  from run have all: "prompts_loop ev ?tmp (pre @ f # post) (Map.empty, fs) = (Inr m, fs')"
    by (simp add: generate_file_prompts_def)
  then obtain m1 fs1 where before: "prompts_loop ev ?tmp pre (Map.empty, fs) = (Inr m1, fs1)"
    and rest: "prompts_loop ev ?tmp (f # post) (m1, fs1) = (Inr m, fs')"
    by (auto simp: prompts_loop_append split: prod.splits sum.splits)
  from rest obtain m2 fs3 where step: "process_file ev ?tmp (m1, fs1) f = (Inr m2, fs3)"
    and after: "prompts_loop ev ?tmp post (m2, fs3) = (Inr m, fs')"
    by (auto split: prod.splits sum.splits)
  from step obtain fs2 where mk: "mkdir_parents (parent (output_file ?tmp f)) fs1 = Inr fs2"
    and m2: "m2 = record_outcome (?k f) (fst (render ev fs2 f (output_file ?tmp f))) m1"
    by (rule process_file_Inr)
  have others: "?k f \<notin> ?k ` set pre" "?k f \<notin> ?k ` set post"
    using inj dist by (auto simp: inj_on_def)
  have "m1 (?k f) = None"
    using prompts_loop_dom[OF before] others(1) by (auto simp: dom_def)
  moreover have "m (?k f) = m2 (?k f)"
    using prompts_loop_other_keys[OF after others(2)] .
  ultimately have "m (?k f) = entry_of (fst (render ev fs2 f (output_file ?tmp f)))"
    using m2 by (simp add: record_outcome_entry split: option.splits)
  with before mk
  show "\<exists>m1 fs1 fs2.
          prompts_loop ev ?tmp pre (Map.empty, fs) = (Inr m1, fs1)
          \<and> mkdir_parents (parent (output_file ?tmp f)) fs1 = Inr fs2
          \<and> m (?k f) = entry_of (fst (render ev fs2 f (output_file ?tmp f)))"
    by blast
qed

lemma loop_step_at:
  assumes "mkdir_parents (parent (output_file tmp f)) fs = Inr fs1"
    and "render ev fs1 f (output_file tmp f) = (oc, fs2)"
    and "cleanup ev fs2 (output_file tmp f) = fs3"
    and "key_of tmp f = k"
  shows "prompts_loop ev tmp (f # rest) (m, fs) = prompts_loop ev tmp rest (record_outcome k oc m, fs3)"
  using loop_step[OF assms(1,2)] assms(3,4) by simp

text \<open>
  Without the tool, \<^verbatim>\<open>main.py\<close> and \<^verbatim>\<open>util.py\<close> both get their raw content as entry;
  the entry of \<^verbatim>\<open>main.py\<close>, which comes first, is there at the end.
\<close>

theorem one_entry_per_workspace_file_witness:
  "generate_file_prompts plain_env demo_analyzer ([] @ main_py # [util_py]) demo_fs =
     (Inr [''src/main.py'' \<mapsto> ''print(1)'', ''src/util.py'' \<mapsto> ''x = 2''], demo_fs)
   \<and> list_all (\<lambda>f. prefix (temp_dir demo_analyzer) f \<and> list_all wf_name f) [main_py, util_py]
   \<and> distinct [main_py, util_py]
   \<and> inj_on (key_of (temp_dir demo_analyzer)) (set [main_py, util_py])
   \<and> dom [''src/main.py'' \<mapsto> ''print(1)'', ''src/util.py'' \<mapsto> ''x = 2'']
       \<subseteq> key_of (temp_dir demo_analyzer) ` set [main_py, util_py]
   \<and> key_of (temp_dir demo_analyzer) main_py = ''src/main.py''
   \<and> [''src/main.py'' \<mapsto> ''print(1)'', ''src/util.py'' \<mapsto> ''x = 2'']
         (key_of (temp_dir demo_analyzer) main_py) =
       entry_of (fst (render plain_env demo_fs main_py (output_file (temp_dir demo_analyzer) main_py)))
   \<and> entry_of (fst (render plain_env demo_fs main_py (output_file (temp_dir demo_analyzer) main_py)))
       = Some ''print(1)''"
proof -
  have t: "temp_dir demo_analyzer = workspace"
    by (simp add: demo_analyzer_def)
  have m1: "mkdir_parents (parent (output_file workspace main_py)) demo_fs = Inr demo_fs"
    by code_simp
  have r1: "render plain_env demo_fs main_py (output_file workspace main_py) =
      (Stored ''print(1)'', demo_fs)"
    by code_simp
  have c1: "cleanup plain_env demo_fs (output_file workspace main_py) = demo_fs"
    by code_simp
  have k1: "key_of workspace main_py = ''src/main.py''"
    by code_simp
  have m2: "mkdir_parents (parent (output_file workspace util_py)) demo_fs = Inr demo_fs"
    by code_simp
  have r2: "render plain_env demo_fs util_py (output_file workspace util_py) =
      (Stored ''x = 2'', demo_fs)"
    by code_simp
  have c2: "cleanup plain_env demo_fs (output_file workspace util_py) = demo_fs"
    by code_simp
  have k2: "key_of workspace util_py = ''src/util.py''"
    by code_simp
  have run: "generate_file_prompts plain_env demo_analyzer ([] @ main_py # [util_py]) demo_fs =
     (Inr [''src/main.py'' \<mapsto> ''print(1)'', ''src/util.py'' \<mapsto> ''x = 2''], demo_fs)"
    unfolding generate_file_prompts_def
    by (simp add: demo_analyzer_def record_outcome_def
          loop_step_at[OF m1 r1 c1 k1] loop_step_at[OF m2 r2 c2 k2] del: prompts_loop.simps(2))
  have wf: "list_all (\<lambda>f. prefix (temp_dir demo_analyzer) f \<and> list_all wf_name f) [main_py, util_py]"
    by code_simp
  then have hyp: "\<forall>g\<in>set ([] @ main_py # [util_py]).
      prefix (temp_dir demo_analyzer) g \<and> (\<forall>n\<in>set g. wf_name n)"
    by (simp add: list_all_iff)
  have dist: "distinct ([] @ main_py # [util_py])"
    by code_simp
  note res = one_entry_per_workspace_file[OF run hyp dist]
  from res have inj: "inj_on (key_of (temp_dir demo_analyzer)) (set [main_py, util_py])"
    and dm: "dom [''src/main.py'' \<mapsto> ''print(1)'', ''src/util.py'' \<mapsto> ''x = 2'']
       \<subseteq> key_of (temp_dir demo_analyzer) ` set [main_py, util_py]"
    by simp_all
  from res obtain fs2 where
    "mkdir_parents (parent (output_file (temp_dir demo_analyzer) main_py)) demo_fs = Inr fs2"
    and e: "[''src/main.py'' \<mapsto> ''print(1)'', ''src/util.py'' \<mapsto> ''x = 2'']
         (key_of (temp_dir demo_analyzer) main_py) =
       entry_of (fst (render plain_env demo_fs main_py (output_file (temp_dir demo_analyzer) main_py)))"
    using m1 by (auto simp: t)
  have v: "entry_of (fst (render plain_env demo_fs main_py (output_file (temp_dir demo_analyzer) main_py)))
       = Some ''print(1)''"
    by (simp add: t r1 entry_of_def)
  from run wf dist inj dm k1 e v show ?thesis by (simp add: t)
qed

text \<open>
  Claim C7 as it was stated does not hold: a file outside the workspace has its bare
  name as key, and two such files with the same name share the key. The entry of the
  first is overwritten by that of the second.
\<close>

theorem shared_key_overwrites:
  "[''a'', ''x.py''] \<noteq> [''b'', ''x.py'']
   \<and> key_of workspace [''a'', ''x.py''] = ''x.py''
   \<and> key_of workspace [''b'', ''x.py''] = ''x.py''
   \<and> read_text outside_fs [''a'', ''x.py''] = Inr ''first''
   \<and> (case fst (generate_file_prompts plain_env demo_analyzer
                   [[''a'', ''x.py''], [''b'', ''x.py'']] outside_fs) of
         Inl e \<Rightarrow> None | Inr m \<Rightarrow> m ''x.py'') = Some ''second''"
  by code_simp

section \<open>Properties of the orchestrator\<close>

text \<open>
  Claim C1, as amended. However the body of \<^verbatim>\<open>analyze\<close> ends (with a result, with the
  exception of the clone or with that of a later step), \<^verbatim>\<open>analyze\<close> ends the same way:
  a removal that fails changes nothing of that. When the workspace directory is not
  the root of the file system and its removal does not fail, the directory does not
  exist when \<^verbatim>\<open>analyze\<close> has finished.
\<close>

theorem analyze_releases_workspace:
  assumes "temp_dir a \<noteq> []"
  shows "fst (analyze ev a fs) = fst (analyze_body ev a fs)
         \<and> (rmtree_leftover ev (snd (analyze_body ev a fs)) (temp_dir a) = None \<longrightarrow>
              \<not> exists_path (snd (analyze ev a fs)) (temp_dir a))"
  using assms by (auto simp: analyze_def Let_def rmtree_def exists_path_def lookup_remove_same)

text \<open>
  The clone fails: \<^verbatim>\<open>analyze\<close> raises the exception of the clone and the workspace
  directory, which was there, is gone. The clone succeeds: there is a result, and the
  directory is gone.
\<close>

theorem analyze_releases_workspace_witness:
  "temp_dir demo_analyzer \<noteq> []
   \<and> fst (analyze offline_env demo_analyzer empty_workspace) =
       Inl (Exn CalledProcessError ''Command returned non-zero exit status 128.'')
   \<and> exists_path (snd (analyze_body offline_env demo_analyzer empty_workspace)) (temp_dir demo_analyzer)
   \<and> rmtree_leftover offline_env (snd (analyze_body offline_env demo_analyzer empty_workspace))
        (temp_dir demo_analyzer) = None
   \<and> \<not> exists_path (snd (analyze offline_env demo_analyzer empty_workspace)) (temp_dir demo_analyzer)
   \<and> \<not> isl (fst (analyze plain_env demo_analyzer empty_workspace))
   \<and> \<not> exists_path (snd (analyze plain_env demo_analyzer empty_workspace)) (temp_dir demo_analyzer)"
proof -
  have h: "temp_dir demo_analyzer \<noteq> []"
    by (simp add: demo_analyzer_def workspace_def)
  have b: "fst (analyze_body offline_env demo_analyzer empty_workspace) =
       Inl (Exn CalledProcessError ''Command returned non-zero exit status 128.'')"
    by (simp add: analyze_body_def clone_repository_def offline_env_def plain_env_def)
  have e: "exists_path (snd (analyze_body offline_env demo_analyzer empty_workspace)) (temp_dir demo_analyzer)"
    by code_simp
  have l: "rmtree_leftover offline_env (snd (analyze_body offline_env demo_analyzer empty_workspace))
        (temp_dir demo_analyzer) = None"
    by (simp add: offline_env_def plain_env_def)
  have l': "rmtree_leftover plain_env (snd (analyze_body plain_env demo_analyzer empty_workspace))
        (temp_dir demo_analyzer) = None"
    by (simp add: plain_env_def)
  have s: "\<not> isl (fst (analyze plain_env demo_analyzer empty_workspace))"
    by code_simp
  note t1 = analyze_releases_workspace[OF h, of offline_env empty_workspace]
  note t2 = analyze_releases_workspace[OF h, of plain_env empty_workspace]
  from t1 t2 h b e l l' s show ?thesis by simp
qed

text \<open>
  Claim C1 as it was stated does not hold: when the removal fails, nothing is raised
  and the workspace directory is still there when \<^verbatim>\<open>analyze\<close> has finished.
\<close>

theorem workspace_survives_failed_removal:
  "temp_dir demo_analyzer \<noteq> []
   \<and> \<not> isl (fst (analyze stuck_env demo_analyzer empty_workspace))
   \<and> exists_path (snd (analyze stuck_env demo_analyzer empty_workspace)) (temp_dir demo_analyzer)"
  by code_simp

end
